theory Spec2Isabelle
  imports Main
begin

section \<open>The Simon game engine: class Model (model.h, model.cpp)\<close>

text \<open>
  The engine is the Qt class \<^verbatim>\<open>Model\<close>. Its private members are
  \<^verbatim>\<open>int m_currentRound\<close>, \<^verbatim>\<open>QVector<int> m_sequence\<close> and \<^verbatim>\<open>int m_userIndex\<close>
  (the specification calls them round, sequence and progress). Its public slots are
  \<^verbatim>\<open>startGame\<close>, \<^verbatim>\<open>addRound\<close> (beginRound in the specification) and
  \<^verbatim>\<open>checkIsTrueButton\<close> (submitMove); \<^verbatim>\<open>addRandomMove\<close> and \<^verbatim>\<open>playSequence\<close> are private.

  The five Qt signals are the constructors of \<open>signal\<close>, under their source names:
  \<^item> \<open>lose\<close> is PlayerLost;
  \<^item> \<open>totalRoundUpdated totalRounds\<close> is RoundCountChanged;
  \<^item> \<open>flashButton button current total\<close> is FlashRequested;
  \<^item> \<open>totalAndCurrentRound current total\<close> is ProgressChanged;
  \<^item> \<open>roundStarted currentRound\<close> is RoundStarted.
\<close>

datatype signal =
    lose
  | totalRoundUpdated int
  | flashButton int int int
  | totalAndCurrentRound int int
  | roundStarted int

text \<open>
  One record holds what a slot reads and writes: the three members of the object, the
  hidden state of the C library's generator behind \<^verbatim>\<open>std::rand()\<close>, and the signals
  emitted so far, oldest first. The generator is an input of the model: \<open>rand_values w n\<close>
  is the value that the \<open>n\<close>-th call of \<^verbatim>\<open>std::rand()\<close> returns (a natural number, as
  the C standard gives it a value between 0 and \<^verbatim>\<open>RAND_MAX\<close>), and \<open>rand_calls w\<close>
  counts the calls made so far. The members and the payloads of the signals are C++
  \<^verbatim>\<open>int\<close>s, 32 bits wide: they are integers here, and the one increment that can leave
  the range, \<^verbatim>\<open>m_currentRound++\<close>, wraps (\<open>int_wrap\<close> below). The other increment,
  \<^verbatim>\<open>m_userIndex++\<close>, is only reached with \<open>m_userIndex\<close> below the size of the vector.
\<close>

record world =
  m_currentRound :: int
  m_sequence :: "int list"
  m_userIndex :: int
  rand_values :: "nat \<Rightarrow> nat"
  rand_calls :: nat
  emitted :: "signal list"

text \<open>The constructor \<^verbatim>\<open>Model::Model\<close>; what \<^verbatim>\<open>std::srand\<close> seeds is the parameter.\<close>

definition Model :: "(nat \<Rightarrow> nat) \<Rightarrow> world" where
  "Model seeded =
     \<lparr>m_currentRound = 0, m_sequence = [], m_userIndex = 0,
      rand_values = seeded, rand_calls = 0, emitted = []\<rparr>"

definition std_rand :: "world \<Rightarrow> nat \<times> world" where
  "std_rand w = (rand_values w (rand_calls w), w\<lparr>rand_calls := rand_calls w + 1\<rparr>)"

definition emit :: "signal \<Rightarrow> world \<Rightarrow> world" where
  "emit sg w = w\<lparr>emitted := emitted w @ [sg]\<rparr>"

text \<open>
  \<^verbatim>\<open>int move = std::rand() % 2; m_sequence.append(move);\<close>
  The operand is not negative, so the remainder of C++ is \<open>mod\<close>.
\<close>

definition addRandomMove :: "world \<Rightarrow> world" where
  "addRandomMove w =
     (let (r, w1) = std_rand w;
          move = int r mod 2
      in w1\<lparr>m_sequence := m_sequence w1 @ [move]\<rparr>)"

text \<open>
  \<^verbatim>\<open>for (int i = 0; i < m_sequence.size(); i++) emit flashButton(m_sequence.at(i), i, m_currentRound);\<close>
  The loop is the recursion \<open>playSequence_loop\<close> on its counter, entered at 0.
\<close>

function playSequence_loop :: "nat \<Rightarrow> world \<Rightarrow> world" where
  "playSequence_loop i w =
     (if i < length (m_sequence w)
      then playSequence_loop (i + 1)
             (emit (flashButton (m_sequence w ! i) (int i) (m_currentRound w)) w)
      else w)"
  by pat_completeness auto
termination
  by (relation "measure (\<lambda>(i, w). length (m_sequence w) - i)") (auto simp: emit_def)

declare playSequence_loop.simps [simp del]

definition playSequence :: "world \<Rightarrow> world" where
  "playSequence w = playSequence_loop 0 w"

text \<open>
  The value that 32-bit two's-complement arithmetic leaves for an integer result: the
  result itself from \<^verbatim>\<open>INT_MIN\<close> = -2147483648 to \<^verbatim>\<open>INT_MAX\<close> = 2147483647, and
  wrapped around by multiples of \<open>2 ^ 32\<close> outside. So \<^verbatim>\<open>m_currentRound++\<close> at
  \<^verbatim>\<open>INT_MAX\<close> leaves \<^verbatim>\<open>INT_MIN\<close>.
\<close>

definition int_wrap :: "int \<Rightarrow> int" where
  "int_wrap x = (x + 2147483648) mod 4294967296 - 2147483648"

definition addRound :: "world \<Rightarrow> world" where
  "addRound w =
     (let w1 = w\<lparr>m_currentRound := int_wrap (m_currentRound w + 1)\<rparr>;
          w2 = w1\<lparr>m_userIndex := 0\<rparr>;
          w3 = addRandomMove w2;
          w4 = emit (totalRoundUpdated (m_currentRound w3)) w3;
          w5 = emit (totalAndCurrentRound (m_userIndex w4) (m_currentRound w4)) w4;
          w6 = emit (roundStarted (m_currentRound w5)) w5
      in playSequence w6)"

definition startGame :: "world \<Rightarrow> world" where
  "startGame w =
     (let w1 = w\<lparr>m_currentRound := 0\<rparr>;
          w2 = w1\<lparr>m_sequence := []\<rparr>;
          w3 = w2\<lparr>m_userIndex := 0\<rparr>
      in addRound w3)"

text \<open>
  \<^verbatim>\<open>int button = isBlue ? 1 : 0;\<close>
\<close>

definition button_of :: "bool \<Rightarrow> int" where
  "button_of isBlue = (if isBlue then 1 else 0)"

text \<open>
  \<^verbatim>\<open>if (m_userIndex < m_sequence.size() && m_sequence[m_userIndex] == button)\<close>
  The conjunction evaluates its second operand only when the first holds. With a
  negative \<open>m_userIndex\<close> the first holds and \<^verbatim>\<open>operator[]\<close> then reads before the
  vector, which has no defined result: that branch is \<open>None\<close>.
\<close>

definition checkIsTrueButton :: "bool \<Rightarrow> world \<Rightarrow> world option" where
  "checkIsTrueButton isBlue w =
     (let button = button_of isBlue in
      if m_userIndex w < int (length (m_sequence w)) then
        if m_userIndex w < 0 then None
        else if m_sequence w ! nat (m_userIndex w) = button then
          (let w1 = w\<lparr>m_userIndex := m_userIndex w + 1\<rparr>;
               w2 = emit (totalAndCurrentRound (m_userIndex w1) (m_currentRound w1)) w1
           in if m_userIndex w2 = int (length (m_sequence w2))
              then Some (addRound w2)
              else Some w2)
        else Some (emit lose w)
      else Some (emit lose w))"

subsection \<open>Sequences of slot calls\<close>

datatype op = StartGame | AddRound | CheckIsTrueButton bool

fun step :: "op \<Rightarrow> world \<Rightarrow> world option" where
  "step StartGame w = Some (startGame w)"
| "step AddRound w = Some (addRound w)"
| "step (CheckIsTrueButton isBlue) w = checkIsTrueButton isBlue w"

fun run :: "op list \<Rightarrow> world \<Rightarrow> world option" where
  "run [] w = Some w"
| "run (c # cs) w = (case step c w of None \<Rightarrow> None | Some w' \<Rightarrow> run cs w')"

subsection \<open>The flashes of a sequence\<close>

definition flashes :: "int list \<Rightarrow> int \<Rightarrow> nat \<Rightarrow> signal list" where
  "flashes xs n i = map (\<lambda>j. flashButton (xs ! j) (int j) n) [i..<length xs]"

subsection \<open>Predicates on states\<close>

text \<open>The progress indexes the sequence or stands at its end.\<close>

definition progress_in_range :: "world \<Rightarrow> bool" where
  "progress_in_range w = (0 \<le> m_userIndex w \<and> m_userIndex w \<le> int (length (m_sequence w)))"

text \<open>The sequence has as many moves as the round counter says.\<close>

definition length_is_round :: "world \<Rightarrow> bool" where
  "length_is_round w = (int (length (m_sequence w)) = m_currentRound w)"

text \<open>A move is 0 (Red) or 1 (Blue); a flash signal carries a move.\<close>

definition is_move :: "int \<Rightarrow> bool" where
  "is_move v = (v = 0 \<or> v = 1)"

fun flash_is_move :: "signal \<Rightarrow> bool" where
  "flash_is_move (flashButton button current tot) = is_move button"
| "flash_is_move lose = True"
| "flash_is_move (totalRoundUpdated n) = True"
| "flash_is_move (totalAndCurrentRound current tot) = True"
| "flash_is_move (roundStarted n) = True"

definition moves_valid :: "world \<Rightarrow> bool" where
  "moves_valid w = (list_all is_move (m_sequence w) \<and> list_all flash_is_move (emitted w))"

text \<open>
  The press is the one that completes the round: it matches the last move of the
  sequence.
\<close>

definition completes_round :: "bool \<Rightarrow> world \<Rightarrow> bool" where
  "completes_round isBlue w =
     (0 \<le> m_userIndex w \<and> m_userIndex w + 1 = int (length (m_sequence w)) \<and>
      m_sequence w ! nat (m_userIndex w) = button_of isBlue)"

text \<open>
  The press is an incorrect move: the progress stands at or past the end of the
  sequence, or the move it indexes is not the pressed one. This is the \<^verbatim>\<open>else\<close>
  branch of \<open>checkIsTrueButton\<close>.
\<close>

definition incorrect_move :: "bool \<Rightarrow> world \<Rightarrow> bool" where
  "incorrect_move isBlue w =
     (int (length (m_sequence w)) \<le> m_userIndex w \<or>
      (0 \<le> m_userIndex w \<and> m_userIndex w < int (length (m_sequence w)) \<and>
       m_sequence w ! nat (m_userIndex w) \<noteq> button_of isBlue))"

section \<open>What each slot does\<close>

lemma playSequence_loop_eq:
  "playSequence_loop i w =
     w\<lparr>emitted := emitted w @ flashes (m_sequence w) (m_currentRound w) i\<rparr>"
proof (induction i w rule: playSequence_loop.induct)
  case (1 i w)
  show ?case
  proof (cases "i < length (m_sequence w)")
    case True
    have "playSequence_loop i w =
            playSequence_loop (i + 1)
              (emit (flashButton (m_sequence w ! i) (int i) (m_currentRound w)) w)"
      using True by (subst playSequence_loop.simps) simp
    also have "\<dots> = w\<lparr>emitted := emitted w @ flashes (m_sequence w) (m_currentRound w) i\<rparr>"
      unfolding "1.IH" [OF True] using True by (simp add: emit_def flashes_def upt_conv_Cons)
    finally show ?thesis .
  next
    case False
    then show ?thesis by (subst playSequence_loop.simps) (simp add: flashes_def)
  qed
qed

lemma playSequence_eq:
  "playSequence w = w\<lparr>emitted := emitted w @ flashes (m_sequence w) (m_currentRound w) 0\<rparr>"
  by (simp add: playSequence_def playSequence_loop_eq)

lemma addRandomMove_eq:
  "addRandomMove w =
     w\<lparr>m_sequence := m_sequence w @ [int (rand_values w (rand_calls w)) mod 2],
       rand_calls := rand_calls w + 1\<rparr>"
  by (simp add: addRandomMove_def std_rand_def)

lemma int_wrap_in_range:
  "- 2147483648 \<le> x \<Longrightarrow> x \<le> 2147483647 \<Longrightarrow> int_wrap x = x"
  by (simp add: int_wrap_def)

lemma addRound_eq:
  "addRound w =
     w\<lparr>m_currentRound := int_wrap (m_currentRound w + 1),
       m_sequence := m_sequence w @ [int (rand_values w (rand_calls w)) mod 2],
       m_userIndex := 0,
       rand_calls := rand_calls w + 1,
       emitted := emitted w @
         [totalRoundUpdated (int_wrap (m_currentRound w + 1)),
          totalAndCurrentRound 0 (int_wrap (m_currentRound w + 1)),
          roundStarted (int_wrap (m_currentRound w + 1))] @
         flashes (m_sequence w @ [int (rand_values w (rand_calls w)) mod 2])
           (int_wrap (m_currentRound w + 1)) 0\<rparr>"
  by (simp add: addRound_def addRandomMove_eq playSequence_eq emit_def)

lemma addRound_increments:
  "- 2147483648 \<le> m_currentRound w \<Longrightarrow> m_currentRound w < 2147483647 \<Longrightarrow>
   m_currentRound (addRound w) = m_currentRound w + 1"
  by (simp add: addRound_eq int_wrap_in_range)

lemma startGame_eq:
  "startGame w =
     w\<lparr>m_currentRound := 1,
       m_sequence := [int (rand_values w (rand_calls w)) mod 2],
       m_userIndex := 0,
       rand_calls := rand_calls w + 1,
       emitted := emitted w @
         [totalRoundUpdated 1, totalAndCurrentRound 0 1, roundStarted 1,
          flashButton (int (rand_values w (rand_calls w)) mod 2) 0 1]\<rparr>"
  by (simp add: startGame_def addRound_eq flashes_def int_wrap_def)

lemma checkIsTrueButton_correct:
  assumes "0 \<le> m_userIndex w"
    and "m_userIndex w < int (length (m_sequence w))"
    and "m_sequence w ! nat (m_userIndex w) = button_of isBlue"
  shows "checkIsTrueButton isBlue w =
           Some (if m_userIndex w + 1 = int (length (m_sequence w))
                 then addRound
                        (w\<lparr>m_userIndex := m_userIndex w + 1,
                           emitted := emitted w @
                             [totalAndCurrentRound (m_userIndex w + 1) (m_currentRound w)]\<rparr>)
                 else w\<lparr>m_userIndex := m_userIndex w + 1,
                        emitted := emitted w @
                          [totalAndCurrentRound (m_userIndex w + 1) (m_currentRound w)]\<rparr>)"
  using assms by (simp add: checkIsTrueButton_def emit_def)

lemma checkIsTrueButton_incorrect:
  assumes "int (length (m_sequence w)) \<le> m_userIndex w \<or>
           (0 \<le> m_userIndex w \<and> m_userIndex w < int (length (m_sequence w)) \<and>
            m_sequence w ! nat (m_userIndex w) \<noteq> button_of isBlue)"
  shows "checkIsTrueButton isBlue w = Some (w\<lparr>emitted := emitted w @ [lose]\<rparr>)"
  using assms by (auto simp: checkIsTrueButton_def emit_def)

lemma checkIsTrueButton_cases:
  assumes "checkIsTrueButton isBlue w = Some w'"
  shows "w' = (if completes_round isBlue w
               then addRound (emit (totalAndCurrentRound (m_userIndex w + 1) (m_currentRound w))
                                (w\<lparr>m_userIndex := m_userIndex w + 1\<rparr>))
               else if m_userIndex w < int (length (m_sequence w)) \<and>
                       m_sequence w ! nat (m_userIndex w) = button_of isBlue
               then emit (totalAndCurrentRound (m_userIndex w + 1) (m_currentRound w))
                      (w\<lparr>m_userIndex := m_userIndex w + 1\<rparr>)
               else emit lose w)"
  using assms
  by (auto simp: checkIsTrueButton_def completes_round_def Let_def emit_def split: if_splits)

section \<open>Invariants of the slots and of runs\<close>

lemma progress_in_range_checkIsTrueButton:
  assumes "progress_in_range w"
  shows "\<exists>w'. checkIsTrueButton isBlue w = Some w' \<and> progress_in_range w'"
  using assms
  by (auto simp: checkIsTrueButton_def progress_in_range_def emit_def addRound_eq Let_def)

lemma progress_in_range_step:
  assumes "progress_in_range w"
  shows "\<exists>w'. step c w = Some w' \<and> progress_in_range w'"
proof (cases c)
  case StartGame
  then show ?thesis by (simp add: startGame_eq progress_in_range_def)
next
  case AddRound
  then show ?thesis by (simp add: addRound_eq progress_in_range_def)
next
  case (CheckIsTrueButton isBlue)
  then show ?thesis using progress_in_range_checkIsTrueButton [OF assms] by simp
qed

lemma progress_in_range_run:
  "progress_in_range w \<Longrightarrow> \<exists>w'. run ops w = Some w' \<and> progress_in_range w'"
proof (induction ops arbitrary: w)
  case Nil
  then show ?case by simp
next
  case (Cons c cs)
  from progress_in_range_step [OF Cons.prems, of c]
  obtain v where v: "step c w = Some v" "progress_in_range v" by blast
  from Cons.IH [OF v(2)] v(1) show ?case by simp
qed

lemma length_is_round_addRound:
  assumes "length_is_round w" and "m_currentRound w < 2147483647"
  shows "length_is_round (addRound w) \<and> m_currentRound (addRound w) = m_currentRound w + 1"
proof -
  have "0 \<le> m_currentRound w"
    using assms(1) unfolding length_is_round_def by linarith
  then have "m_currentRound (addRound w) = m_currentRound w + 1"
    using assms(2) by (intro addRound_increments) simp_all
  moreover have "length (m_sequence (addRound w)) = length (m_sequence w) + 1"
    by (simp add: addRound_eq)
  ultimately show ?thesis
    using assms(1) by (simp add: length_is_round_def)
qed

lemma length_is_round_checkIsTrueButton:
  assumes "length_is_round w" and "m_currentRound w < 2147483647"
    and "checkIsTrueButton isBlue w = Some w'"
  shows "length_is_round w' \<and> m_currentRound w' \<le> m_currentRound w + 1"
proof -
  let ?v = "emit (totalAndCurrentRound (m_userIndex w + 1) (m_currentRound w))
              (w\<lparr>m_userIndex := m_userIndex w + 1\<rparr>)"
  have v: "length_is_round ?v" "m_currentRound ?v = m_currentRound w"
    using assms(1) by (simp_all add: length_is_round_def emit_def)
  have l: "length_is_round (emit lose w)" "m_currentRound (emit lose w) = m_currentRound w"
    using assms(1) by (simp_all add: length_is_round_def emit_def)
  from checkIsTrueButton_cases [OF assms(3)]
  have "w' = addRound ?v \<or> w' = ?v \<or> w' = emit lose w"
    by (simp split: if_splits)
  then show ?thesis
    using v l length_is_round_addRound [of ?v] assms(2) by auto
qed

lemma length_is_round_step:
  assumes "length_is_round w" and "m_currentRound w < 2147483647"
    and "step c w = Some w'"
  shows "length_is_round w' \<and> m_currentRound w' \<le> m_currentRound w + 1"
proof (cases c)
  case StartGame
  have "0 \<le> m_currentRound w"
    using assms(1) unfolding length_is_round_def by linarith
  with StartGame assms(3) show ?thesis
    by (auto simp: startGame_eq length_is_round_def)
next
  case AddRound
  then show ?thesis using assms length_is_round_addRound [of w] by auto
next
  case (CheckIsTrueButton isBlue)
  then show ?thesis using assms length_is_round_checkIsTrueButton [of w isBlue w'] by simp
qed

lemma length_is_round_run:
  "length_is_round w \<Longrightarrow> m_currentRound w + int (length ops) \<le> 2147483647 \<Longrightarrow>
   run ops w = Some w' \<Longrightarrow> length_is_round w'"
proof (induction ops arbitrary: w)
  case Nil
  then show ?case by simp
next
  case (Cons c cs)
  from Cons.prems(3) obtain v where v: "step c w = Some v" "run cs v = Some w'"
    by (auto split: option.splits)
  from Cons.prems(2) have "m_currentRound w < 2147483647" by simp
  from length_is_round_step [OF Cons.prems(1) this v(1)]
  have "length_is_round v" "m_currentRound v \<le> m_currentRound w + 1" by simp_all
  moreover from this(2) Cons.prems(2)
  have "m_currentRound v + int (length cs) \<le> 2147483647" by simp
  ultimately show ?case using v(2) by (intro Cons.IH)
qed

lemma list_all_flashes:
  "list_all is_move xs \<Longrightarrow> list_all flash_is_move (flashes xs n i)"
  by (simp add: flashes_def list_all_iff)

lemma is_move_mod2: "is_move (int r mod 2)"
  by (simp add: is_move_def) presburger

lemma moves_valid_addRound: "moves_valid w \<Longrightarrow> moves_valid (addRound w)"
  by (simp add: moves_valid_def addRound_eq is_move_mod2 list_all_flashes)

lemma moves_valid_startGame: "list_all flash_is_move (emitted w) \<Longrightarrow> moves_valid (startGame w)"
  by (simp add: moves_valid_def startGame_eq is_move_mod2)

lemma moves_valid_emit: "moves_valid w \<Longrightarrow> flash_is_move sg \<Longrightarrow> moves_valid (emit sg w)"
  by (simp add: moves_valid_def emit_def)

lemma moves_valid_checkIsTrueButton:
  assumes "moves_valid w" and "checkIsTrueButton isBlue w = Some w'"
  shows "moves_valid w'"
proof -
  let ?v = "emit (totalAndCurrentRound (m_userIndex w + 1) (m_currentRound w))
              (w\<lparr>m_userIndex := m_userIndex w + 1\<rparr>)"
  have v: "moves_valid ?v"
    using assms(1) by (simp add: moves_valid_def emit_def)
  have "w' = emit lose w \<or> w' = ?v \<or> w' = addRound ?v"
    using assms(2) by (auto simp: checkIsTrueButton_def Let_def emit_def split: if_splits)
  then show ?thesis
    using v assms(1) moves_valid_addRound [OF v] moves_valid_emit [of w lose] by auto
qed

lemma moves_valid_step:
  assumes "moves_valid w" and "step c w = Some w'"
  shows "moves_valid w'"
proof (cases c)
  case StartGame
  then show ?thesis using assms moves_valid_startGame [of w] by (auto simp: moves_valid_def)
next
  case AddRound
  then show ?thesis using assms moves_valid_addRound by auto
next
  case (CheckIsTrueButton isBlue)
  then show ?thesis using assms moves_valid_checkIsTrueButton by simp
qed

lemma moves_valid_run:
  "moves_valid w \<Longrightarrow> run ops w = Some w' \<Longrightarrow> moves_valid w'"
proof (induction ops arbitrary: w)
  case Nil
  then show ?case by simp
next
  case (Cons c cs)
  then show ?case
    by (auto split: option.splits dest: moves_valid_step)
qed

section \<open>The sequence within a game, and incorrect presses\<close>

lemma step_extends_sequence:
  assumes "step c w = Some u" and "c \<noteq> StartGame"
  shows "\<exists>ys. m_sequence u = m_sequence w @ ys"
proof (cases c)
  case StartGame
  with assms(2) show ?thesis by simp
next
  case AddRound
  with assms(1) show ?thesis by (auto simp: addRound_eq)
next
  case (CheckIsTrueButton isBlue)
  with assms(1) have "checkIsTrueButton isBlue w = Some u" by simp
  from checkIsTrueButton_cases [OF this] show ?thesis
    by (auto simp: addRound_eq emit_def split: if_splits)
qed

lemma run_extends_sequence:
  "run ops w = Some u \<Longrightarrow> StartGame \<notin> set ops \<Longrightarrow> \<exists>ys. m_sequence u = m_sequence w @ ys"
proof (induction ops arbitrary: w)
  case Nil
  then show ?case by simp
next
  case (Cons c cs)
  from Cons.prems obtain v where v: "step c w = Some v" "run cs v = Some u"
    by (auto split: option.splits)
  from Cons.prems(2) have "c \<noteq> StartGame" "StartGame \<notin> set cs" by auto
  from step_extends_sequence [OF v(1) this(1)] Cons.IH [OF v(2) this(2)]
  show ?case by auto
qed

lemma incorrect_move_emitted:
  "incorrect_move b (w\<lparr>emitted := e\<rparr>) = incorrect_move b w"
  by (simp add: incorrect_move_def)

lemma incorrect_presses_run:
  "\<forall>b \<in> set presses. incorrect_move b w \<Longrightarrow>
   run (map CheckIsTrueButton presses) w =
     Some (w\<lparr>emitted := emitted w @ replicate (length presses) lose\<rparr>)"
proof (induction presses arbitrary: w)
  case Nil
  then show ?case by simp
next
  case (Cons b bs)
  let ?v = "w\<lparr>emitted := emitted w @ [lose]\<rparr>"
  have "incorrect_move b w"
    using Cons.prems by simp
  then have s: "checkIsTrueButton b w = Some ?v"
    unfolding incorrect_move_def by (rule checkIsTrueButton_incorrect)
  have "\<forall>b \<in> set bs. incorrect_move b ?v"
    using Cons.prems by (simp add: incorrect_move_emitted)
  then have "run (map CheckIsTrueButton bs) ?v =
          Some (?v\<lparr>emitted := emitted ?v @ replicate (length bs) lose\<rparr>)"
    by (rule Cons.IH)
  with s show ?case by simp
qed

text \<open>The equations that evaluate the slots on a concrete state.\<close>

lemmas eval_simps =
  Model_def startGame_eq checkIsTrueButton_def button_of_def emit_def addRound_eq
  int_wrap_def flashes_def upt_conv_Cons

section \<open>Properties of the engine\<close>

text \<open>
  C1. \<open>addRound\<close> (beginRound) adds 1 to the round, sets the progress to 0, appends
  exactly one move to the sequence, and then emits, in this order,
  RoundCountChanged(round), ProgressChanged(0, round), RoundStarted(round) and one
  FlashRequested(move at i, i, round) for each index \<open>i\<close> of the new sequence in
  increasing order, where round is the new round. This holds from every state; the
  new round is the old one plus 1 in every state whose round is an \<^verbatim>\<open>int\<close> below
  \<^verbatim>\<open>INT_MAX\<close>, where \<^verbatim>\<open>m_currentRound++\<close> does not overflow. So a single \<open>startGame\<close>
  emits RoundCountChanged(1), ProgressChanged(0, 1), RoundStarted(1) and exactly one
  FlashRequested, with index 0 and total 1.
\<close>

theorem addRound_performs:
  "(- 2147483648 \<le> m_currentRound w \<and> m_currentRound w < 2147483647 \<longrightarrow>
      m_currentRound (addRound w) = m_currentRound w + 1) \<and>
   m_userIndex (addRound w) = 0 \<and>
   m_sequence (addRound w) = m_sequence w @ [int (rand_values w (rand_calls w)) mod 2] \<and>
   emitted (addRound w) =
     emitted w @
     [totalRoundUpdated (m_currentRound (addRound w)),
      totalAndCurrentRound 0 (m_currentRound (addRound w)),
      roundStarted (m_currentRound (addRound w))] @
     map (\<lambda>i. flashButton (m_sequence (addRound w) ! i) (int i) (m_currentRound (addRound w)))
       [0..<length (m_sequence (addRound w))] \<and>
   emitted (startGame w) =
     emitted w @
     [totalRoundUpdated 1, totalAndCurrentRound 0 1, roundStarted 1,
      flashButton (int (rand_values w (rand_calls w)) mod 2) 0 1]"
proof -
  have a: "- 2147483648 \<le> m_currentRound w \<and> m_currentRound w < 2147483647 \<longrightarrow>
      m_currentRound (addRound w) = m_currentRound w + 1"
    using addRound_increments by blast
  have b: "m_userIndex (addRound w) = 0 \<and>
   m_sequence (addRound w) = m_sequence w @ [int (rand_values w (rand_calls w)) mod 2] \<and>
   emitted (addRound w) =
     emitted w @
     [totalRoundUpdated (m_currentRound (addRound w)),
      totalAndCurrentRound 0 (m_currentRound (addRound w)),
      roundStarted (m_currentRound (addRound w))] @
     map (\<lambda>i. flashButton (m_sequence (addRound w) ! i) (int i) (m_currentRound (addRound w)))
       [0..<length (m_sequence (addRound w))] \<and>
   emitted (startGame w) =
     emitted w @
     [totalRoundUpdated 1, totalAndCurrentRound 0 1, roundStarted 1,
      flashButton (int (rand_values w (rand_calls w)) mod 2) 0 1]"
    by (simp add: addRound_eq startGame_eq flashes_def)
  from a b show ?thesis by (rule conjI)
qed

theorem addRound_performs_witness:
  "- 2147483648 \<le> (1::int) \<and> (1::int) < 2147483647 \<and>
   addRound
     \<lparr>m_currentRound = 1, m_sequence = [0], m_userIndex = 1,
      rand_values = id, rand_calls = 1, emitted = []\<rparr> =
     \<lparr>m_currentRound = 2, m_sequence = [0, 1], m_userIndex = 0,
      rand_values = id, rand_calls = 2,
      emitted = [totalRoundUpdated 2, totalAndCurrentRound 0 2, roundStarted 2,
                 flashButton 0 0 2, flashButton 1 1 2]\<rparr> \<and>
   emitted (startGame (Model id)) =
     [totalRoundUpdated 1, totalAndCurrentRound 0 1, roundStarted 1, flashButton 0 0 1]"
  using addRound_performs
    [of "\<lparr>m_currentRound = 1, m_sequence = [0], m_userIndex = 1,
          rand_values = id, rand_calls = 1, emitted = []\<rparr>"]
  by (simp add: eval_simps)

text \<open>
  C2. In every state where the progress indexes the sequence and the move there is the
  pressed one (1 for BLUE, 0 for RED), \<open>checkIsTrueButton\<close> (submitMove) adds 1 to the
  progress, emits ProgressChanged(progress, round) with the new progress, and then
  performs \<open>addRound\<close> if and only if the new progress is the length of the sequence;
  otherwise nothing more happens.
\<close>

theorem checkIsTrueButton_correct_move:
  assumes "0 \<le> m_userIndex w"
    and "m_userIndex w < int (length (m_sequence w))"
    and "m_sequence w ! nat (m_userIndex w) = (if isBlue then 1 else 0)"
  shows "checkIsTrueButton isBlue w =
           Some (if m_userIndex w + 1 = int (length (m_sequence w))
                 then addRound
                        (w\<lparr>m_userIndex := m_userIndex w + 1,
                           emitted := emitted w @
                             [totalAndCurrentRound (m_userIndex w + 1) (m_currentRound w)]\<rparr>)
                 else w\<lparr>m_userIndex := m_userIndex w + 1,
                        emitted := emitted w @
                          [totalAndCurrentRound (m_userIndex w + 1) (m_currentRound w)]\<rparr>)"
  using assms checkIsTrueButton_correct [of w isBlue] by (simp add: button_of_def)

theorem checkIsTrueButton_correct_move_witness:
  "(0::int) \<le> 0 \<and> (0::int) < int (length [0::int]) \<and> [0::int] ! nat 0 = (if False then 1 else 0) \<and>
   checkIsTrueButton False
     \<lparr>m_currentRound = 1, m_sequence = [0], m_userIndex = 0,
      rand_values = id, rand_calls = 1, emitted = []\<rparr> =
   Some \<lparr>m_currentRound = 2, m_sequence = [0, 1], m_userIndex = 0,
         rand_values = id, rand_calls = 2,
         emitted = [totalAndCurrentRound 1 1, totalRoundUpdated 2, totalAndCurrentRound 0 2,
                    roundStarted 2, flashButton 0 0 2, flashButton 1 1 2]\<rparr>"
  using checkIsTrueButton_correct_move
    [of "\<lparr>m_currentRound = 1, m_sequence = [0], m_userIndex = 0,
          rand_values = id, rand_calls = 1, emitted = []\<rparr>" False]
  by (simp add: addRound_eq int_wrap_def flashes_def upt_conv_Cons)

text \<open>
  C3. In every state where the progress is past the end of the sequence, or indexes it
  and the move there differs from the pressed one, \<open>checkIsTrueButton\<close> emits exactly
  PlayerLost and nothing else, and leaves round, sequence and progress as they were.
  The state that the constructor leaves (no \<open>startGame\<close> yet, the sequence empty) is
  such a state.
\<close>

theorem checkIsTrueButton_incorrect_move:
  assumes "int (length (m_sequence w)) \<le> m_userIndex w \<or>
           (0 \<le> m_userIndex w \<and> m_userIndex w < int (length (m_sequence w)) \<and>
            m_sequence w ! nat (m_userIndex w) \<noteq> (if isBlue then 1 else 0))"
  shows "checkIsTrueButton isBlue w = Some (w\<lparr>emitted := emitted w @ [lose]\<rparr>) \<and>
         checkIsTrueButton isBlue (Model seeded) = Some ((Model seeded)\<lparr>emitted := [lose]\<rparr>)"
proof
  show "checkIsTrueButton isBlue w = Some (w\<lparr>emitted := emitted w @ [lose]\<rparr>)"
    using assms checkIsTrueButton_incorrect [of w isBlue] by (simp add: button_of_def)
  show "checkIsTrueButton isBlue (Model seeded) = Some ((Model seeded)\<lparr>emitted := [lose]\<rparr>)"
    using checkIsTrueButton_incorrect [of "Model seeded" isBlue] by (simp add: Model_def)
qed

theorem checkIsTrueButton_incorrect_move_witness:
  "(0::int) \<le> 0 \<and> (0::int) < int (length [0::int]) \<and> [0::int] ! nat 0 \<noteq> (if True then 1 else 0) \<and>
   checkIsTrueButton True
     \<lparr>m_currentRound = 1, m_sequence = [0], m_userIndex = 0,
      rand_values = id, rand_calls = 1, emitted = []\<rparr> =
   Some \<lparr>m_currentRound = 1, m_sequence = [0], m_userIndex = 0,
         rand_values = id, rand_calls = 1, emitted = [lose]\<rparr>"
  using checkIsTrueButton_incorrect_move
    [of "\<lparr>m_currentRound = 1, m_sequence = [0], m_userIndex = 0,
          rand_values = id, rand_calls = 1, emitted = []\<rparr>" True]
  by simp

text \<open>
  C4. The claim reads: once PlayerLost has been emitted, no \<open>checkIsTrueButton\<close> emits
  ProgressChanged or RoundStarted until \<open>startGame\<close> is called again. The object keeps no
  record of a loss: \<open>lose\<close> leaves round, sequence and progress as they were, and the next
  press is judged against the same move. What holds is this: a run of presses, each of
  them an incorrect move for the state, emits PlayerLost once per press and nothing else,
  and leaves round, sequence and progress unchanged. A press that matches the move at
  the progress is accepted after a loss as before it; the run after the theorem shows
  one, on the game that \<open>startGame\<close> begins with the move 0.
\<close>

theorem incorrect_presses_emit_only_lose:
  assumes "\<forall>b \<in> set presses. incorrect_move b w"
  shows "run (map CheckIsTrueButton presses) w =
           Some (w\<lparr>emitted := emitted w @ replicate (length presses) lose\<rparr>)"
  using assms by (rule incorrect_presses_run)

theorem incorrect_presses_emit_only_lose_witness:
  "incorrect_move True
     \<lparr>m_currentRound = 1, m_sequence = [0], m_userIndex = 0,
      rand_values = id, rand_calls = 1, emitted = []\<rparr> \<and>
   run (map CheckIsTrueButton [True, True])
     \<lparr>m_currentRound = 1, m_sequence = [0], m_userIndex = 0,
      rand_values = id, rand_calls = 1, emitted = []\<rparr> =
   Some \<lparr>m_currentRound = 1, m_sequence = [0], m_userIndex = 0,
         rand_values = id, rand_calls = 1, emitted = [lose, lose]\<rparr>"
  using incorrect_presses_emit_only_lose
    [of "[True, True]"
        "\<lparr>m_currentRound = 1, m_sequence = [0], m_userIndex = 0,
          rand_values = id, rand_calls = 1, emitted = []\<rparr>"]
  by (simp add: incorrect_move_def button_of_def)

theorem lost_is_not_terminal_counterexample:
  "map_option emitted (run [StartGame, CheckIsTrueButton True] (Model id)) =
     Some [totalRoundUpdated 1, totalAndCurrentRound 0 1, roundStarted 1, flashButton 0 0 1,
           lose] \<and>
   map_option emitted
     (run [StartGame, CheckIsTrueButton True, CheckIsTrueButton False] (Model id)) =
     Some [totalRoundUpdated 1, totalAndCurrentRound 0 1, roundStarted 1, flashButton 0 0 1,
           lose,
           totalAndCurrentRound 1 1, totalRoundUpdated 2, totalAndCurrentRound 0 2,
           roundStarted 2, flashButton 0 0 2, flashButton 1 1 2]"
  by (simp add: Model_def startGame_eq checkIsTrueButton_def button_of_def emit_def
        addRound_eq int_wrap_def flashes_def upt_conv_Cons)

text \<open>
  C5. The length of the sequence is the round: this holds in the state the constructor
  leaves and after every \<open>startGame\<close>, and every run of slot calls from a state where it
  holds ends in a state where it holds, as long as the run is too short for the round
  to pass \<^verbatim>\<open>INT_MAX\<close>. Each \<open>addRound\<close> appends exactly one move, and adds exactly 1
  to a round that is an \<^verbatim>\<open>int\<close> below \<^verbatim>\<open>INT_MAX\<close>; \<open>checkIsTrueButton\<close> changes
  neither round nor sequence, except through the \<open>addRound\<close> it performs.
\<close>

theorem length_sequence_is_round:
  "(- 2147483648 \<le> m_currentRound w \<and> m_currentRound w < 2147483647 \<longrightarrow>
      m_currentRound (addRound w) = m_currentRound w + 1) \<and>
   (\<exists>move. m_sequence (addRound w) = m_sequence w @ [move]) \<and>
   (checkIsTrueButton isBlue w = Some w' \<longrightarrow>
      (m_currentRound w' = m_currentRound w \<and> m_sequence w' = m_sequence w) \<or>
      (\<exists>v. w' = addRound v \<and> m_currentRound v = m_currentRound w \<and>
           m_sequence v = m_sequence w)) \<and>
   length_is_round (Model seeded) \<and>
   length_is_round (startGame w) \<and>
   (length_is_round w \<and> m_currentRound w + int (length ops) \<le> 2147483647 \<and>
    run ops w = Some z \<longrightarrow> length_is_round z)"
proof -
  have a: "- 2147483648 \<le> m_currentRound w \<and> m_currentRound w < 2147483647 \<longrightarrow>
      m_currentRound (addRound w) = m_currentRound w + 1"
    using addRound_increments by blast
  have b: "\<exists>move. m_sequence (addRound w) = m_sequence w @ [move]"
    by (simp add: addRound_eq)
  have c: "checkIsTrueButton isBlue w = Some w' \<longrightarrow>
      (m_currentRound w' = m_currentRound w \<and> m_sequence w' = m_sequence w) \<or>
      (\<exists>v. w' = addRound v \<and> m_currentRound v = m_currentRound w \<and>
           m_sequence v = m_sequence w)"
  proof
    assume h: "checkIsTrueButton isBlue w = Some w'"
    let ?v = "emit (totalAndCurrentRound (m_userIndex w + 1) (m_currentRound w))
                (w\<lparr>m_userIndex := m_userIndex w + 1\<rparr>)"
    have v: "m_currentRound ?v = m_currentRound w" "m_sequence ?v = m_sequence w"
      by (simp_all add: emit_def)
    from checkIsTrueButton_cases [OF h]
    have "w' = addRound ?v \<or> w' = ?v \<or> w' = emit lose w"
      by (simp split: if_splits)
    then show "(m_currentRound w' = m_currentRound w \<and> m_sequence w' = m_sequence w) \<or>
      (\<exists>v. w' = addRound v \<and> m_currentRound v = m_currentRound w \<and>
           m_sequence v = m_sequence w)"
    proof (elim disjE)
      assume "w' = addRound ?v"
      with v show ?thesis by blast
    next
      assume "w' = ?v"
      with v show ?thesis by simp
    next
      assume "w' = emit lose w"
      then show ?thesis by (simp add: emit_def)
    qed
  qed
  have d: "length_is_round (Model seeded)"
    by (simp add: length_is_round_def Model_def)
  have e: "length_is_round (startGame w)"
    by (simp add: length_is_round_def startGame_eq)
  have f: "length_is_round w \<and> m_currentRound w + int (length ops) \<le> 2147483647 \<and>
    run ops w = Some z \<longrightarrow> length_is_round z"
    using length_is_round_run by blast
  from a b c d e f show ?thesis by blast
qed

theorem length_sequence_is_round_witness:
  "- 2147483648 \<le> (1::int) \<and> (1::int) < 2147483647 \<and>
   m_currentRound
     (addRound \<lparr>m_currentRound = 1, m_sequence = [0], m_userIndex = 0,
                rand_values = id, rand_calls = 1, emitted = []\<rparr>) = 2 \<and>
   checkIsTrueButton False
     \<lparr>m_currentRound = 1, m_sequence = [0], m_userIndex = 0,
      rand_values = id, rand_calls = 1, emitted = []\<rparr> =
   Some \<lparr>m_currentRound = 2, m_sequence = [0, 1], m_userIndex = 0,
         rand_values = id, rand_calls = 2,
         emitted = [totalAndCurrentRound 1 1, totalRoundUpdated 2, totalAndCurrentRound 0 2,
                    roundStarted 2, flashButton 0 0 2, flashButton 1 1 2]\<rparr> \<and>
   length_is_round
     \<lparr>m_currentRound = 1, m_sequence = [0], m_userIndex = 0,
      rand_values = id, rand_calls = 1, emitted = []\<rparr> \<and>
   (1::int) + int (length [CheckIsTrueButton False, CheckIsTrueButton True, AddRound])
     \<le> 2147483647 \<and>
   run [CheckIsTrueButton False, CheckIsTrueButton True, AddRound]
     \<lparr>m_currentRound = 1, m_sequence = [0], m_userIndex = 0,
      rand_values = id, rand_calls = 1, emitted = []\<rparr> =
   Some \<lparr>m_currentRound = 3, m_sequence = [0, 1, 0], m_userIndex = 0,
         rand_values = id, rand_calls = 3,
         emitted = [totalAndCurrentRound 1 1, totalRoundUpdated 2, totalAndCurrentRound 0 2,
                    roundStarted 2, flashButton 0 0 2, flashButton 1 1 2, lose,
                    totalRoundUpdated 3, totalAndCurrentRound 0 3, roundStarted 3,
                    flashButton 0 0 3, flashButton 1 1 3, flashButton 0 2 3]\<rparr> \<and>
   length_is_round
     \<lparr>m_currentRound = 3, m_sequence = [0, 1, 0], m_userIndex = 0,
      rand_values = id, rand_calls = 3,
      emitted = [totalAndCurrentRound 1 1, totalRoundUpdated 2, totalAndCurrentRound 0 2,
                 roundStarted 2, flashButton 0 0 2, flashButton 1 1 2, lose,
                 totalRoundUpdated 3, totalAndCurrentRound 0 3, roundStarted 3,
                 flashButton 0 0 3, flashButton 1 1 3, flashButton 0 2 3]\<rparr>"
  using length_sequence_is_round
    [where w = "\<lparr>m_currentRound = 1, m_sequence = [0], m_userIndex = 0,
                  rand_values = id, rand_calls = 1, emitted = []\<rparr>"
       and isBlue = False
       and w' = "\<lparr>m_currentRound = 2, m_sequence = [0, 1], m_userIndex = 0,
                   rand_values = id, rand_calls = 2,
                   emitted = [totalAndCurrentRound 1 1, totalRoundUpdated 2,
                              totalAndCurrentRound 0 2, roundStarted 2, flashButton 0 0 2,
                              flashButton 1 1 2]\<rparr>"
       and ops = "[CheckIsTrueButton False, CheckIsTrueButton True, AddRound]"
       and z = "\<lparr>m_currentRound = 3, m_sequence = [0, 1, 0], m_userIndex = 0,
                  rand_values = id, rand_calls = 3,
                  emitted = [totalAndCurrentRound 1 1, totalRoundUpdated 2,
                             totalAndCurrentRound 0 2, roundStarted 2, flashButton 0 0 2,
                             flashButton 1 1 2, lose, totalRoundUpdated 3,
                             totalAndCurrentRound 0 3, roundStarted 3, flashButton 0 0 3,
                             flashButton 1 1 3, flashButton 0 2 3]\<rparr>"
       and seeded = id]
  by (simp add: eval_simps length_is_round_def)

text \<open>
  C6. The progress is never negative and never exceeds the length of the sequence: this
  holds in the state the constructor leaves, after \<open>startGame\<close> and after \<open>addRound\<close>
  from any state, and \<open>checkIsTrueButton\<close> from a state where it holds returns a state
  where it holds. So every run of slot calls from the constructor's state returns a
  state, and the progress is in range there.
\<close>

theorem progress_never_exceeds_length:
  "progress_in_range (Model seeded) \<and>
   progress_in_range (startGame w) \<and>
   progress_in_range (addRound w) \<and>
   (progress_in_range w \<longrightarrow>
      (\<exists>w'. checkIsTrueButton isBlue w = Some w' \<and> progress_in_range w')) \<and>
   (\<exists>u. run ops (Model seeded) = Some u \<and> progress_in_range u)"
proof -
  have a: "progress_in_range (Model seeded)"
    by (simp add: progress_in_range_def Model_def)
  have b: "progress_in_range (startGame w)"
    by (simp add: progress_in_range_def startGame_eq)
  have c: "progress_in_range (addRound w)"
    by (simp add: progress_in_range_def addRound_eq)
  have d: "progress_in_range w \<longrightarrow>
      (\<exists>w'. checkIsTrueButton isBlue w = Some w' \<and> progress_in_range w')"
    using progress_in_range_checkIsTrueButton by blast
  have e: "\<exists>u. run ops (Model seeded) = Some u \<and> progress_in_range u"
    using progress_in_range_run [OF a] .
  from a b c d e show ?thesis by blast
qed

theorem progress_never_exceeds_length_witness:
  "progress_in_range
     \<lparr>m_currentRound = 1, m_sequence = [0], m_userIndex = 0,
      rand_values = id, rand_calls = 1, emitted = []\<rparr> \<and>
   checkIsTrueButton True
     \<lparr>m_currentRound = 1, m_sequence = [0], m_userIndex = 0,
      rand_values = id, rand_calls = 1, emitted = []\<rparr> =
   Some \<lparr>m_currentRound = 1, m_sequence = [0], m_userIndex = 0,
         rand_values = id, rand_calls = 1, emitted = [lose]\<rparr> \<and>
   progress_in_range
     \<lparr>m_currentRound = 1, m_sequence = [0], m_userIndex = 0,
      rand_values = id, rand_calls = 1, emitted = [lose]\<rparr> \<and>
   map_option m_userIndex (run [StartGame, AddRound, CheckIsTrueButton False] (Model id)) =
     Some 1 \<and>
   map_option m_sequence (run [StartGame, AddRound, CheckIsTrueButton False] (Model id)) =
     Some [0, 1]"
  using progress_never_exceeds_length
    [where w = "\<lparr>m_currentRound = 1, m_sequence = [0], m_userIndex = 0,
                  rand_values = id, rand_calls = 1, emitted = []\<rparr>"
       and isBlue = True and seeded = id
       and ops = "[StartGame, AddRound, CheckIsTrueButton False]"]
  by (simp add: eval_simps progress_in_range_def)

text \<open>
  C7. From any state, \<open>startGame\<close> is the reset of round, sequence and progress followed
  by \<open>addRound\<close>: afterwards the round is 1, the sequence has exactly one move (the next
  random value modulo 2) and the progress is 0. A second \<open>startGame\<close> right after leaves
  the same round and progress and again a sequence of one move, the following random
  value modulo 2.
\<close>

theorem startGame_resets:
  "startGame w = addRound (w\<lparr>m_currentRound := 0, m_sequence := [], m_userIndex := 0\<rparr>) \<and>
   m_currentRound (startGame w) = 1 \<and>
   m_sequence (startGame w) = [int (rand_values w (rand_calls w)) mod 2] \<and>
   m_userIndex (startGame w) = 0 \<and>
   m_currentRound (startGame (startGame w)) = 1 \<and>
   m_sequence (startGame (startGame w)) = [int (rand_values w (rand_calls w + 1)) mod 2] \<and>
   m_userIndex (startGame (startGame w)) = 0"
proof -
  have a: "startGame w = addRound (w\<lparr>m_currentRound := 0, m_sequence := [], m_userIndex := 0\<rparr>)"
    by (simp add: startGame_def)
  have b: "m_currentRound (startGame w) = 1 \<and>
     m_sequence (startGame w) = [int (rand_values w (rand_calls w)) mod 2] \<and>
     m_userIndex (startGame w) = 0 \<and>
     m_currentRound (startGame (startGame w)) = 1 \<and>
     m_sequence (startGame (startGame w)) = [int (rand_values w (rand_calls w + 1)) mod 2] \<and>
     m_userIndex (startGame (startGame w)) = 0"
    by (simp add: startGame_eq)
  from a b show ?thesis by (rule conjI)
qed

text \<open>
  C8. \<open>checkIsTrueButton\<close> changes the sequence and the round only when the press
  completes the round, and then by the one append and the one increment of \<open>addRound\<close>
  (an increment by 1 for a round that is an \<^verbatim>\<open>int\<close> below \<^verbatim>\<open>INT_MAX\<close>); otherwise
  both stay as they were. \<open>addRound\<close> appends one move, \<open>startGame\<close> clears the sequence
  and appends one move, and along a run without \<open>startGame\<close> the moves already in the
  sequence stay in place.
\<close>

theorem sequence_changes_only_by_append_or_clear:
  "(checkIsTrueButton isBlue w = Some w' \<longrightarrow>
      (if completes_round isBlue w
       then m_sequence w' = m_sequence w @ [int (rand_values w (rand_calls w)) mod 2] \<and>
            (- 2147483648 \<le> m_currentRound w \<and> m_currentRound w < 2147483647 \<longrightarrow>
               m_currentRound w' = m_currentRound w + 1)
       else m_sequence w' = m_sequence w \<and> m_currentRound w' = m_currentRound w)) \<and>
   m_sequence (addRound w) = m_sequence w @ [int (rand_values w (rand_calls w)) mod 2] \<and>
   m_sequence (startGame w) = [int (rand_values w (rand_calls w)) mod 2] \<and>
   (run ops w = Some u \<and> StartGame \<notin> set ops \<longrightarrow>
      take (length (m_sequence w)) (m_sequence u) = m_sequence w)"
proof -
  have a: "checkIsTrueButton isBlue w = Some w' \<longrightarrow>
      (if completes_round isBlue w
       then m_sequence w' = m_sequence w @ [int (rand_values w (rand_calls w)) mod 2] \<and>
            (- 2147483648 \<le> m_currentRound w \<and> m_currentRound w < 2147483647 \<longrightarrow>
               m_currentRound w' = m_currentRound w + 1)
       else m_sequence w' = m_sequence w \<and> m_currentRound w' = m_currentRound w)"
  proof
    assume "checkIsTrueButton isBlue w = Some w'"
    from checkIsTrueButton_cases [OF this]
    show "if completes_round isBlue w
       then m_sequence w' = m_sequence w @ [int (rand_values w (rand_calls w)) mod 2] \<and>
            (- 2147483648 \<le> m_currentRound w \<and> m_currentRound w < 2147483647 \<longrightarrow>
               m_currentRound w' = m_currentRound w + 1)
       else m_sequence w' = m_sequence w \<and> m_currentRound w' = m_currentRound w"
      by (simp add: addRound_eq emit_def int_wrap_in_range)
  qed
  have b: "m_sequence (addRound w) = m_sequence w @ [int (rand_values w (rand_calls w)) mod 2]"
    by (simp add: addRound_eq)
  have c: "m_sequence (startGame w) = [int (rand_values w (rand_calls w)) mod 2]"
    by (simp add: startGame_eq)
  have d: "run ops w = Some u \<and> StartGame \<notin> set ops \<longrightarrow>
      take (length (m_sequence w)) (m_sequence u) = m_sequence w"
    using run_extends_sequence [of ops w u] by auto
  from a b c d show ?thesis by blast
qed

theorem sequence_changes_only_by_append_or_clear_witness:
  "checkIsTrueButton False
     \<lparr>m_currentRound = 1, m_sequence = [0], m_userIndex = 0,
      rand_values = id, rand_calls = 1, emitted = []\<rparr> =
   Some \<lparr>m_currentRound = 2, m_sequence = [0, 1], m_userIndex = 0,
         rand_values = id, rand_calls = 2,
         emitted = [totalAndCurrentRound 1 1, totalRoundUpdated 2, totalAndCurrentRound 0 2,
                    roundStarted 2, flashButton 0 0 2, flashButton 1 1 2]\<rparr> \<and>
   completes_round False
     \<lparr>m_currentRound = 1, m_sequence = [0], m_userIndex = 0,
      rand_values = id, rand_calls = 1, emitted = []\<rparr> \<and>
   - 2147483648 \<le> (1::int) \<and> (1::int) < 2147483647 \<and>
   run [CheckIsTrueButton False]
     \<lparr>m_currentRound = 1, m_sequence = [0], m_userIndex = 0,
      rand_values = id, rand_calls = 1, emitted = []\<rparr> =
   Some \<lparr>m_currentRound = 2, m_sequence = [0, 1], m_userIndex = 0,
         rand_values = id, rand_calls = 2,
         emitted = [totalAndCurrentRound 1 1, totalRoundUpdated 2, totalAndCurrentRound 0 2,
                    roundStarted 2, flashButton 0 0 2, flashButton 1 1 2]\<rparr> \<and>
   StartGame \<notin> set [CheckIsTrueButton False] \<and>
   take (length [0::int]) [0, 1] = [0::int]"
  using sequence_changes_only_by_append_or_clear
    [where w = "\<lparr>m_currentRound = 1, m_sequence = [0], m_userIndex = 0,
                  rand_values = id, rand_calls = 1, emitted = []\<rparr>"
       and isBlue = False
       and w' = "\<lparr>m_currentRound = 2, m_sequence = [0, 1], m_userIndex = 0,
                   rand_values = id, rand_calls = 2,
                   emitted = [totalAndCurrentRound 1 1, totalRoundUpdated 2,
                              totalAndCurrentRound 0 2, roundStarted 2, flashButton 0 0 2,
                              flashButton 1 1 2]\<rparr>"
       and ops = "[CheckIsTrueButton False]"
       and u = "\<lparr>m_currentRound = 2, m_sequence = [0, 1], m_userIndex = 0,
                  rand_values = id, rand_calls = 2,
                  emitted = [totalAndCurrentRound 1 1, totalRoundUpdated 2,
                             totalAndCurrentRound 0 2, roundStarted 2, flashButton 0 0 2,
                             flashButton 1 1 2]\<rparr>"]
  by (simp add: eval_simps completes_round_def)

text \<open>
  C9. In every state that a run of slot calls reaches from the constructor's state,
  every move of the sequence is 0 or 1, the button of every FlashRequested emitted so
  far is 0 or 1, and the move that \<open>addRound\<close> appends next is 0 or 1.
\<close>

theorem sequence_moves_are_0_or_1:
  assumes "run ops (Model seeded) = Some w"
  shows "(\<forall>v \<in> set (m_sequence w). v = 0 \<or> v = 1) \<and>
         (\<forall>button current tot.
            flashButton button current tot \<in> set (emitted w) \<longrightarrow> button = 0 \<or> button = 1) \<and>
         (\<exists>move. m_sequence (addRound w) = m_sequence w @ [move] \<and> (move = 0 \<or> move = 1))"
proof -
  have "moves_valid (Model seeded)"
    by (simp add: moves_valid_def Model_def)
  from moves_valid_run [OF this assms]
  have mv: "list_all is_move (m_sequence w)" "list_all flash_is_move (emitted w)"
    by (simp_all add: moves_valid_def)
  have a: "\<forall>v \<in> set (m_sequence w). v = 0 \<or> v = 1"
    using mv(1) by (simp add: list_all_iff is_move_def)
  have b: "\<forall>button current tot.
            flashButton button current tot \<in> set (emitted w) \<longrightarrow> button = 0 \<or> button = 1"
  proof (intro allI impI)
    fix button current tot
    assume "flashButton button current tot \<in> set (emitted w)"
    with mv(2) [unfolded list_all_iff]
    have "flash_is_move (flashButton button current tot)"
      by blast
    then show "button = 0 \<or> button = 1" by (simp add: is_move_def)
  qed
  have c: "\<exists>move. m_sequence (addRound w) = m_sequence w @ [move] \<and> (move = 0 \<or> move = 1)"
    using is_move_mod2 [of "rand_values w (rand_calls w)"]
    by (simp add: addRound_eq is_move_def)
  from a b c show ?thesis by blast
qed

theorem sequence_moves_are_0_or_1_witness:
  "run [StartGame, CheckIsTrueButton False] (Model id) =
   Some \<lparr>m_currentRound = 2, m_sequence = [0, 1], m_userIndex = 0,
         rand_values = id, rand_calls = 2,
         emitted = [totalRoundUpdated 1, totalAndCurrentRound 0 1, roundStarted 1,
                    flashButton 0 0 1, totalAndCurrentRound 1 1, totalRoundUpdated 2,
                    totalAndCurrentRound 0 2, roundStarted 2, flashButton 0 0 2,
                    flashButton 1 1 2]\<rparr> \<and>
   list_all is_move [0, 1]"
  using sequence_moves_are_0_or_1
    [of "[StartGame, CheckIsTrueButton False]" id
        "\<lparr>m_currentRound = 2, m_sequence = [0, 1], m_userIndex = 0,
          rand_values = id, rand_calls = 2,
          emitted = [totalRoundUpdated 1, totalAndCurrentRound 0 1, roundStarted 1,
                     flashButton 0 0 1, totalAndCurrentRound 1 1, totalRoundUpdated 2,
                     totalAndCurrentRound 0 2, roundStarted 2, flashButton 0 0 2,
                     flashButton 1 1 2]\<rparr>"]
  by (simp add: eval_simps is_move_def)

end
